theory Spec2Isabelle
  imports Complex_Main "HOL-Library.Char_ord" "HOL-Library.List_Lexorder"
    "HOL-Library.Product_Lexorder" "HOL-Library.Multiset"
begin

section \<open>The relational store read by the analytical queries\<close>

text \<open>
  The queries of \<^verbatim>\<open>queries.sql\<close> read eight tables. The schema itself is not part
  of the sources, so every table is modelled as the list of its rows and every row as a record
  of the columns the queries Q5, Q8, Q13, Q15 and Q16 mention. A nullable column is an
  \<open>option\<close> (\<open>None\<close> is SQL's NULL); identifiers are naturals, other integers are
  \<open>int\<close>; a timestamp is the number of microseconds since the epoch; text is \<open>string\<close>.
\<close>

record order_row =
  o_id :: nat
  o_status :: string

record order_item_row =
  oi_id :: nat
  oi_order_id :: nat
  oi_product_id :: nat

record product_row =
  p_id :: nat
  p_name :: string

record operation_row =
  op_id :: nat
  op_name :: string
  op_default_minutes :: "int option"

record workshop_row =
  w_id :: nat
  w_name :: string

record route_step_row =
  rs_id :: nat
  rs_order_item_id :: nat
  rs_step_no :: int
  rs_operation_id :: nat
  rs_workshop_id :: "nat option"
  rs_status :: string
  rs_planned_minutes :: "int option"
  rs_planned_finish :: "int option"

record equipment_row =
  e_id :: nat
  e_name :: string
  e_workshop_id :: "nat option"

record operation_log_row =
  ol_id :: nat
  ol_equipment_id :: "nat option"
  ol_status :: string

record db =
  orders :: "order_row list"
  order_items :: "order_item_row list"
  products :: "product_row list"
  operations :: "operation_row list"
  workshops :: "workshop_row list"
  route_steps :: "route_step_row list"
  equipment :: "equipment_row list"
  operation_logs :: "operation_log_row list"

subsection \<open>SQL building blocks\<close>

text \<open>
  \<open>A JOIN B ON c\<close> is a nested list comprehension. \<open>A LEFT JOIN B ON c\<close> pairs a row
  of \<open>A\<close> with every matching row of \<open>B\<close>, or with one all-NULL row when none matches.
\<close>

definition left_join :: "('b \<Rightarrow> bool) \<Rightarrow> 'b list \<Rightarrow> 'b option list" where
  "left_join on bs = (case filter on bs of [] \<Rightarrow> [None] | m # ms \<Rightarrow> map Some (m # ms))"

text \<open>\<open>GROUP BY key\<close>: one group per distinct key value, holding the rows with that key.\<close>

definition group_by :: "('r \<Rightarrow> 'k) \<Rightarrow> 'r list \<Rightarrow> ('k \<times> 'r list) list" where
  "group_by key rows = map (\<lambda>k. (k, filter (\<lambda>r. key r = k) rows)) (remdups (map key rows))"

text \<open>\<open>COALESCE\<close>: the first argument that is not NULL.\<close>

fun coalesce :: "'a option list \<Rightarrow> 'a option" where
  "coalesce [] = None"
| "coalesce (None # vs) = coalesce vs"
| "coalesce (Some v # vs) = Some v"

text \<open>\<open>SUM\<close> skips NULL inputs and is NULL when no input is left.\<close>

definition sql_sum :: "int option list \<Rightarrow> int option" where
  "sql_sum vs = (case filter (\<lambda>v. v \<noteq> None) vs of [] \<Rightarrow> None
                 | m # ms \<Rightarrow> Some (sum_list (map the (m # ms))))"

text \<open>
  \<open>ROUND(x, d)\<close> on \<open>numeric\<close>: to \<open>d\<close> decimals, ties away from zero. Numeric values
  are modelled as exact rationals; PostgreSQL's division keeps at least sixteen significant
  digits, which is exact enough not to move any of the roundings below.
\<close>

definition pg_round :: "rat \<Rightarrow> nat \<Rightarrow> rat" where
  "pg_round x d =
     (if 0 \<le> x then of_int \<lfloor>x * 10 ^ d + 1 / 2\<rfloor> / 10 ^ d
      else - (of_int \<lfloor>- x * 10 ^ d + 1 / 2\<rfloor> / 10 ^ d))"

text \<open>\<open>EXTRACT(EPOCH FROM (a - b))\<close>: the interval in seconds.\<close>

definition epoch_diff :: "int \<Rightarrow> int \<Rightarrow> rat" where
  "epoch_diff a b = of_int (a - b) / 1000000"

section \<open>Q13: overdue route steps\<close>

record q13_row =
  q13_order_id :: nat
  q13_product :: string
  q13_step_no :: int
  q13_operation :: string
  q13_workshop :: "string option"
  q13_step_status :: string
  q13_planned_finish :: "int option"
  q13_checked_at :: int
  q13_hours_overdue :: "rat option"

type_synonym q13_src =
  "route_step_row \<times> order_item_row \<times> order_row \<times> product_row \<times> operation_row \<times> workshop_row option"

definition q13_from :: "db \<Rightarrow> q13_src list" where
  "q13_from d =
     [(rs, oi, od, p, op, w).
        rs \<leftarrow> route_steps d,
        oi \<leftarrow> order_items d, oi_id oi = rs_order_item_id rs,
        od \<leftarrow> orders d, o_id od = oi_order_id oi,
        p \<leftarrow> products d, p_id p = oi_product_id oi,
        op \<leftarrow> operations d, op_id op = rs_operation_id rs,
        w \<leftarrow> left_join (\<lambda>w. Some (w_id w) = rs_workshop_id rs) (workshops d)]"

text \<open>The WHERE clause; \<open>now\<close> is the value of \<open>NOW()\<close>.\<close>

fun q13_where :: "int \<Rightarrow> q13_src \<Rightarrow> bool" where
  "q13_where now (rs, oi, od, p, op, w) =
     (case rs_planned_finish rs of
        None \<Rightarrow> False
      | Some pf \<Rightarrow> pf < now \<and> rs_status rs \<noteq> ''DONE'')"

definition hours_overdue :: "int \<Rightarrow> int option \<Rightarrow> rat option" where
  "hours_overdue now pf = map_option (\<lambda>f. pg_round (epoch_diff now f / 3600) 1) pf"

fun q13_select :: "int \<Rightarrow> q13_src \<Rightarrow> q13_row" where
  "q13_select now (rs, oi, od, p, op, w) =
     \<lparr> q13_order_id = o_id od, q13_product = p_name p, q13_step_no = rs_step_no rs,
       q13_operation = op_name op, q13_workshop = map_option w_name w,
       q13_step_status = rs_status rs, q13_planned_finish = rs_planned_finish rs,
       q13_checked_at = now, q13_hours_overdue = hours_overdue now (rs_planned_finish rs) \<rparr>"

text \<open>\<open>ORDER BY hours_overdue DESC\<close>: a descending sort puts NULL first.\<close>

definition desc_key :: "rat option \<Rightarrow> nat \<times> rat" where
  "desc_key v = (case v of None \<Rightarrow> (0, 0) | Some x \<Rightarrow> (1, - x))"

definition Q13 :: "db \<Rightarrow> int \<Rightarrow> q13_row list" where
  "Q13 d now =
     sort_key (\<lambda>r. desc_key (q13_hours_overdue r))
       (map (q13_select now) (filter (q13_where now) (q13_from d)))"


section \<open>Q5: where an order is in its chain\<close>

record q5_row =
  q5_order_id :: nat
  q5_product :: string
  q5_route_step_id :: nat
  q5_step_no :: int
  q5_operation :: string
  q5_workshop :: "string option"
  q5_status :: string

text \<open>The common table expression \<open>steps\<close>.\<close>

definition q5_steps :: "db \<Rightarrow> q5_row list" where
  "q5_steps d =
     [\<lparr> q5_order_id = o_id od, q5_product = p_name p, q5_route_step_id = rs_id rs,
        q5_step_no = rs_step_no rs, q5_operation = op_name op,
        q5_workshop = map_option w_name w, q5_status = rs_status rs \<rparr>.
        od \<leftarrow> orders d,
        oi \<leftarrow> order_items d, oi_order_id oi = o_id od,
        p \<leftarrow> products d, p_id p = oi_product_id oi,
        rs \<leftarrow> route_steps d, rs_order_item_id rs = oi_id oi,
        op \<leftarrow> operations d, op_id op = rs_operation_id rs,
        w \<leftarrow> left_join (\<lambda>w. Some (w_id w) = rs_workshop_id rs) (workshops d)]"

text \<open>\<open>CASE status WHEN 'IN_PROGRESS' THEN 0 ELSE 1 END\<close>\<close>

definition q5_rank :: "string \<Rightarrow> nat" where
  "q5_rank s = (if s = ''IN_PROGRESS'' then 0 else 1)"

text \<open>
  The statement itself: every row of \<open>steps\<close> whose status is IN_PROGRESS or PLANNED, sorted
  by order, product, rank and step number. Text is compared bytewise; rows with equal keys
  keep their order.
\<close>

definition Q5 :: "db \<Rightarrow> q5_row list" where
  "Q5 d =
     sort_key (\<lambda>r. (q5_order_id r, q5_product r, q5_rank (q5_status r), q5_step_no r))
       (filter (\<lambda>r. q5_status r \<in> set [''IN_PROGRESS'', ''PLANNED'']) (q5_steps d))"

section \<open>Q8: equipment utilization\<close>

record q8_row =
  q8_id :: nat
  q8_equipment :: string
  q8_workshop :: "string option"
  q8_active_ops :: nat
  q8_total_logs :: nat

type_synonym q8_src = "equipment_row \<times> workshop_row option \<times> operation_log_row option"

definition q8_from :: "db \<Rightarrow> q8_src list" where
  "q8_from d =
     [(e, w, ol).
        e \<leftarrow> equipment d,
        w \<leftarrow> left_join (\<lambda>w. Some (w_id w) = e_workshop_id e) (workshops d),
        ol \<leftarrow> left_join (\<lambda>l. ol_equipment_id l = Some (e_id e)) (operation_logs d)]"

text \<open>\<open>GROUP BY e.id, e.name, w.name\<close>\<close>

fun q8_key :: "q8_src \<Rightarrow> nat \<times> string \<times> string option" where
  "q8_key (e, w, ol) = (e_id e, e_name e, map_option w_name w)"

text \<open>
  The filter of \<open>active_ops\<close>: \<open>ol.status = 'IN_PROGRESS'\<close>, which is not true on the
  all-NULL log of an outer-joined row.
\<close>

fun q8_active :: "q8_src \<Rightarrow> bool" where
  "q8_active (e, w, ol) = (case ol of None \<Rightarrow> False | Some l \<Rightarrow> ol_status l = ''IN_PROGRESS'')"

text \<open>\<open>COUNT(*) FILTER (WHERE ...)\<close> and \<open>COUNT(*)\<close> over the rows of one group.\<close>

fun q8_select :: "(nat \<times> string \<times> string option) \<times> q8_src list \<Rightarrow> q8_row" where
  "q8_select ((i, n, wn), rows) =
     \<lparr> q8_id = i, q8_equipment = n, q8_workshop = wn,
       q8_active_ops = length (filter q8_active rows), q8_total_logs = length rows \<rparr>"

text \<open>\<open>ORDER BY active_ops DESC, e.name\<close>\<close>

definition Q8 :: "db \<Rightarrow> q8_row list" where
  "Q8 d =
     sort_key (\<lambda>r. (- int (q8_active_ops r), q8_equipment r))
       (map q8_select (group_by q8_key (q8_from d)))"

section \<open>Q15: work in progress per order\<close>

record q15_row =
  q15_order_id :: nat
  q15_remaining_minutes :: "int option"
  q15_remaining_hours :: "rat option"
  q15_rate_rub_per_hour :: int
  q15_nzp_cost_rub :: "rat option"

type_synonym q15_src = "order_row \<times> order_item_row \<times> route_step_row \<times> operation_row"

definition q15_from :: "db \<Rightarrow> q15_src list" where
  "q15_from d =
     [(od, oi, rs, op).
        od \<leftarrow> orders d,
        oi \<leftarrow> order_items d, oi_order_id oi = o_id od,
        rs \<leftarrow> route_steps d, rs_order_item_id rs = oi_id oi,
        op \<leftarrow> operations d, op_id op = rs_operation_id rs]"

fun q15_where :: "q15_src \<Rightarrow> bool" where
  "q15_where (od, oi, rs, op) = (o_status od \<in> set [''PLANNED'', ''IN_PROGRESS''])"

fun q15_key :: "q15_src \<Rightarrow> nat" where
  "q15_key (od, oi, rs, op) = o_id od"

text \<open>\<open>COALESCE(rs.planned_minutes, op.default_minutes, 0)\<close>\<close>

definition step_minutes :: "route_step_row \<Rightarrow> operation_row \<Rightarrow> int option" where
  "step_minutes rs op = coalesce [rs_planned_minutes rs, op_default_minutes op, Some 0]"

fun q15_minutes :: "q15_src \<Rightarrow> int option" where
  "q15_minutes (od, oi, rs, op) = step_minutes rs op"

fun q15_not_done :: "q15_src \<Rightarrow> bool" where
  "q15_not_done (od, oi, rs, op) = (rs_status rs \<noteq> ''DONE'')"

text \<open>The common table expression \<open>remaining\<close>: \<open>SUM(...) FILTER (WHERE ...)\<close> per group.\<close>

definition q15_remaining :: "db \<Rightarrow> (nat \<times> int option) list" where
  "q15_remaining d =
     map (\<lambda>(k, rows). (k, sql_sum (map q15_minutes (filter q15_not_done rows))))
       (group_by q15_key (filter q15_where (q15_from d)))"

fun q15_select :: "nat \<times> int option \<Rightarrow> q15_row" where
  "q15_select (k, rm) =
     \<lparr> q15_order_id = k, q15_remaining_minutes = rm,
       q15_remaining_hours = map_option (\<lambda>m. pg_round (of_int m / 60) 2) rm,
       q15_rate_rub_per_hour = 1500,
       q15_nzp_cost_rub = map_option (\<lambda>m. pg_round (of_int m / 60 * 1500) 0) rm \<rparr>"

definition Q15 :: "db \<Rightarrow> q15_row list" where
  "Q15 d = sort_key (\<lambda>r. desc_key (q15_nzp_cost_rub r)) (map q15_select (q15_remaining d))"

section \<open>Q16: work in progress per workshop\<close>

record q16_row =
  q16_workshop :: "string option"
  q16_wip_minutes :: "int option"
  q16_wip_hours :: "rat option"
  q16_rate_rub_per_hour :: int
  q16_wip_cost_rub :: "rat option"

type_synonym q16_src = "route_step_row \<times> operation_row \<times> workshop_row option"

definition q16_from :: "db \<Rightarrow> q16_src list" where
  "q16_from d =
     [(rs, op, w).
        rs \<leftarrow> route_steps d,
        op \<leftarrow> operations d, op_id op = rs_operation_id rs,
        w \<leftarrow> left_join (\<lambda>w. Some (w_id w) = rs_workshop_id rs) (workshops d)]"

fun q16_key :: "q16_src \<Rightarrow> string option" where
  "q16_key (rs, op, w) = map_option w_name w"

fun q16_minutes :: "q16_src \<Rightarrow> int option" where
  "q16_minutes (rs, op, w) = step_minutes rs op"

fun q16_not_done :: "q16_src \<Rightarrow> bool" where
  "q16_not_done (rs, op, w) = (rs_status rs \<noteq> ''DONE'')"

text \<open>The common table expression \<open>wip\<close>.\<close>

definition q16_wip :: "db \<Rightarrow> (string option \<times> int option) list" where
  "q16_wip d =
     map (\<lambda>(k, rows). (k, sql_sum (map q16_minutes (filter q16_not_done rows))))
       (group_by q16_key (q16_from d))"

text \<open>\<open>WHERE wip_minutes > 0\<close>: a NULL sum is not greater than zero.\<close>

fun q16_where :: "string option \<times> int option \<Rightarrow> bool" where
  "q16_where (k, m) = (case m of None \<Rightarrow> False | Some v \<Rightarrow> 0 < v)"

fun q16_select :: "string option \<times> int option \<Rightarrow> q16_row" where
  "q16_select (k, m) =
     \<lparr> q16_workshop = k, q16_wip_minutes = m,
       q16_wip_hours = map_option (\<lambda>v. pg_round (of_int v / 60) 2) m,
       q16_rate_rub_per_hour = 1500,
       q16_wip_cost_rub = map_option (\<lambda>v. pg_round (of_int v / 60 * 1500) 0) m \<rparr>"

definition Q16 :: "db \<Rightarrow> q16_row list" where
  "Q16 d =
     sort_key (\<lambda>r. desc_key (q16_wip_cost_rub r))
       (map q16_select (filter q16_where (q16_wip d)))"

section \<open>What the queries are meant to report\<close>

text \<open>
  The reading of the reports in terms of the tables alone, against which the queries are
  compared: the route steps of an order, the planned duration of a step, the workshop name
  of a step, and the sums over the steps that are not DONE.
\<close>

definition order_steps :: "db \<Rightarrow> nat \<Rightarrow> route_step_row list" where
  "order_steps d k =
     filter (\<lambda>rs. \<exists>oi \<in> set (order_items d). oi_id oi = rs_order_item_id rs \<and> oi_order_id oi = k)
       (route_steps d)"

definition pending_steps :: "db \<Rightarrow> nat \<Rightarrow> route_step_row list" where
  "pending_steps d k = filter (\<lambda>rs. rs_status rs \<noteq> ''DONE'') (order_steps d k)"

definition spec_step_minutes :: "db \<Rightarrow> route_step_row \<Rightarrow> int" where
  "spec_step_minutes d rs =
     (case rs_planned_minutes rs of
        Some m \<Rightarrow> m
      | None \<Rightarrow>
         (case find (\<lambda>op. op_id op = rs_operation_id rs) (operations d) of
            None \<Rightarrow> 0
          | Some op \<Rightarrow> (case op_default_minutes op of Some m \<Rightarrow> m | None \<Rightarrow> 0)))"

definition spec_remaining_minutes :: "db \<Rightarrow> nat \<Rightarrow> int" where
  "spec_remaining_minutes d k = sum_list (map (spec_step_minutes d) (pending_steps d k))"

definition step_workshop :: "db \<Rightarrow> route_step_row \<Rightarrow> string option" where
  "step_workshop d rs =
     (case rs_workshop_id rs of
        None \<Rightarrow> None
      | Some i \<Rightarrow> map_option w_name (find (\<lambda>w. w_id w = i) (workshops d)))"

definition workshop_pending :: "db \<Rightarrow> string option \<Rightarrow> route_step_row list" where
  "workshop_pending d k =
     filter (\<lambda>rs. rs_status rs \<noteq> ''DONE'' \<and> step_workshop d rs = k) (route_steps d)"

definition spec_wip_minutes :: "db \<Rightarrow> string option \<Rightarrow> int" where
  "spec_wip_minutes d k = sum_list (map (spec_step_minutes d) (workshop_pending d k))"

text \<open>
  Integrity of the store: identifiers are keys of their tables and every step's operation
  exists.
\<close>

definition wf_db :: "db \<Rightarrow> bool" where
  "wf_db d \<longleftrightarrow>
     distinct (map o_id (orders d)) \<and> distinct (map oi_id (order_items d)) \<and>
     distinct (map op_id (operations d)) \<and> distinct (map w_id (workshops d)) \<and>
     list_all (\<lambda>rs. rs_operation_id rs \<in> op_id ` set (operations d)) (route_steps d)"

text \<open>
  Two auxiliary notions for the proofs about Q15: the joined rows that one order contributes
  to the FROM clause when every step has exactly one operation, and the filter on the order
  status.
\<close>

definition order_rows :: "db \<Rightarrow> order_row \<Rightarrow> q15_src list" where
  "order_rows d od =
     concat (map (\<lambda>oi. map (\<lambda>rs. (od, oi, rs, the (find (\<lambda>op. op_id op = rs_operation_id rs) (operations d))))
                     (filter (\<lambda>rs. rs_order_item_id rs = oi_id oi) (route_steps d)))
       (filter (\<lambda>oi. oi_order_id oi = o_id od) (order_items d)))"

definition status_open :: "order_row \<Rightarrow> bool" where
  "status_open od \<longleftrightarrow> o_status od \<in> set [''PLANNED'', ''IN_PROGRESS'']"

section \<open>The HTTP server: values and requests\<close>

text \<open>
  A value of a parsed JSON body. \<open>JUndefined\<close> is what reading a missing property gives;
  a number is the rational it denotes.
\<close>

datatype json =
  JUndefined | JNull | JBool bool | JNum rat | JStr string
  | JArr "json list" | JObj "(string \<times> json) list"

text \<open>JavaScript's truthiness, as \<open>!x\<close> and \<open>x && ...\<close> test it.\<close>

fun truthy :: "json \<Rightarrow> bool" where
  "truthy JUndefined = False"
| "truthy JNull = False"
| "truthy (JBool b) = b"
| "truthy (JNum n) = (n \<noteq> 0)"
| "truthy (JStr s) = (s \<noteq> [])"
| "truthy (JArr xs) = True"
| "truthy (JObj kvs) = True"

text \<open>
  A JavaScript number as far as \<open>parseInt\<close> can return one: NaN, an integer that is a
  double, or an infinity.
\<close>

datatype js_number = NaN | Finite int | PosInfinity | NegInfinity

text \<open>
  A parameter of the query string as the framework parses it: a string, a list of strings
  (a repeated parameter) or a nested object.
\<close>

datatype qval = QStr string | QArr "string list" | QObj

record request =
  authorization :: "string option"
  param_id :: string
  body :: "(string \<times> json) list"
  query_q :: "qval option"
  query_status :: "qval option"
  query_sort :: "qval option"
  query_direction :: "qval option"

text \<open>\<open>const { f } = req.body\<close>\<close>

definition field :: "request \<Rightarrow> string \<Rightarrow> json" where
  "field req f = (case map_of (body req) f of None \<Rightarrow> JUndefined | Some v \<Rightarrow> v)"

text \<open>The payload of a verified token, as \<open>generateToken\<close> signs it.\<close>

record payload =
  pl_id :: int
  pl_username :: string
  pl_role :: string

subsection \<open>The store behind the server\<close>

record srv_order =
  so_id :: int
  so_customer_name :: string
  so_customer_phone :: string
  so_customer_email :: "string option"
  so_services :: string
  so_message :: "string option"
  so_status :: string
  so_created_at :: int
  so_updated_at :: "int option"

record srv_user =
  su_id :: int
  su_username :: string
  su_password_hash :: string
  su_full_name :: "string option"
  su_role :: string
  su_created_at :: int

record mv_row =
  mv_day :: int
  mv_status :: string
  mv_orders :: nat

text \<open>
  The state of the store: the tables \<open>orders\<close> and \<open>users\<close>, the rows of the
  materialized view \<open>order_stats_mv\<close>, the next value of the sequence behind
  \<open>users.id\<close>, and whether \<open>pool.connect()\<close> succeeds.
\<close>

record store =
  st_orders :: "srv_order list"
  st_users :: "srv_user list"
  st_mv :: "mv_row list"
  st_user_seq :: int
  st_available :: bool

text \<open>
  What the server uses and the sources do not contain: the token library, the password hash,
  the clock, and four facts about the database (how the driver writes a value that is not a
  string as text, how the server reads an integer from text, which values the column
  \<open>orders.status\<close> admits, and the operator \<open>ILIKE\<close>).
\<close>

record env =
  jwt_verify :: "string \<Rightarrow> payload option"
  bcrypt_hash :: "string \<Rightarrow> string"
  clock :: int
  pg_text :: "json \<Rightarrow> string"
  pg_int_in :: "string \<Rightarrow> int option"
  status_ok :: "string \<Rightarrow> bool"
  ilike :: "string \<Rightarrow> string \<Rightarrow> bool"

subsection \<open>Responses and the trace of store accesses\<close>

text \<open>The error messages of the server, in the order of their first use.\<close>

datatype err =
  AuthRequired | BadTokenFormat | BadToken | AdminOnly | ServerError | InternalError
  | CredentialsRequired | LoginTaken | CannotDeleteSelf | UserNotFound | StatusRequired
  | OrderNotFound

record user_view =
  uv_id :: int
  uv_username :: string
  uv_full_name :: "string option"
  uv_role :: string
  uv_created_at :: int

record order_view =
  ov_id :: int
  ov_customer_name :: string
  ov_customer_phone :: string
  ov_customer_email :: "string option"
  ov_services :: string
  ov_message :: "string option"
  ov_status :: string
  ov_created_at :: int

record stats =
  totalOrders :: nat
  count_NEW :: nat
  count_IN_PROGRESS :: nat
  count_DONE :: nat
  count_CANCELED :: nat
  totalUsers :: nat
  avgCompletionHours :: "rat option"

datatype reply =
  Error err | MvRows "mv_row list" | CreatedUser user_view | Success
  | OrderRows "order_view list" | OrderRow srv_order | Stats stats

record response =
  code :: nat
  reply :: reply

text \<open>The ORDER BY text that \<open>${sortField}\<close> interpolates: a column name or not.\<close>

datatype sort_field = Column string | NotAColumn

text \<open>
  A condition of the WHERE clause of \<open>GET /orders\<close>, with the number of its parameter.
\<close>

datatype where_clause = StatusEq nat | SearchILike nat

record orders_query =
  oq_where :: "where_clause list"
  oq_values :: "string list"
  oq_sort :: sort_field
  oq_direction :: string

datatype stmt =
  SelectMv
  | InsertUser string string "string option" string
  | DeleteUser js_number
  | SelectOrders orders_query
  | UpdateOrderStatus string string
  | StatsOrders | StatsUsers | StatsAvg

datatype db_event = Connect | Query stmt | Release

record outcome =
  out_response :: response
  out_store :: store
  out_trace :: "db_event list"

definition respond :: "nat \<Rightarrow> reply \<Rightarrow> store \<Rightarrow> db_event list \<Rightarrow> outcome" where
  "respond c r st tr = \<lparr> out_response = \<lparr> code = c, reply = r \<rparr>, out_store = st, out_trace = tr \<rparr>"

section \<open>The middleware\<close>

text \<open>\<open>authHeader.split(" ")\<close>\<close>

fun split_space :: "string \<Rightarrow> string list" where
  "split_space [] = [[]]"
| "split_space (c # cs) =
     (if c = CHR '' '' then [] # split_space cs
      else (case split_space cs of w # ws \<Rightarrow> (c # w) # ws | [] \<Rightarrow> [[c]]))"

text \<open>
  \<open>authMiddleware\<close>: the error response, or the payload it stores in \<open>req.user\<close>.
\<close>

definition authMiddleware :: "env \<Rightarrow> request \<Rightarrow> response + payload" where
  "authMiddleware e req =
     (case authorization req of
        None \<Rightarrow> Inl \<lparr> code = 401, reply = Error AuthRequired \<rparr>
      | Some authHeader \<Rightarrow>
          if authHeader = [] then Inl \<lparr> code = 401, reply = Error AuthRequired \<rparr>
          else
            (case split_space authHeader of
               type # token # rest \<Rightarrow>
                 if type \<noteq> ''Bearer'' \<or> token = []
                 then Inl \<lparr> code = 401, reply = Error BadTokenFormat \<rparr>
                 else
                   (case jwt_verify e token of
                      None \<Rightarrow> Inl \<lparr> code = 401, reply = Error BadToken \<rparr>
                    | Some p \<Rightarrow> Inr p)
             | _ \<Rightarrow> Inl \<lparr> code = 401, reply = Error BadTokenFormat \<rparr>))"

text \<open>\<open>adminOnlyMiddleware\<close>: the error response, or nothing when the chain goes on.\<close>

definition adminOnlyMiddleware :: "payload \<Rightarrow> response option" where
  "adminOnlyMiddleware user =
     (if pl_role user \<noteq> ''ADMIN'' then Some \<lparr> code = 403, reply = Error AdminOnly \<rparr> else None)"

text \<open>A route behind \<open>authMiddleware\<close>, and one behind both.\<close>

definition with_auth ::
  "env \<Rightarrow> store \<Rightarrow> request \<Rightarrow> (payload \<Rightarrow> outcome) \<Rightarrow> outcome" where
  "with_auth e st req handler =
     (case authMiddleware e req of
        Inl r \<Rightarrow> \<lparr> out_response = r, out_store = st, out_trace = [] \<rparr>
      | Inr user \<Rightarrow> handler user)"

definition with_admin ::
  "env \<Rightarrow> store \<Rightarrow> request \<Rightarrow> (payload \<Rightarrow> outcome) \<Rightarrow> outcome" where
  "with_admin e st req handler =
     with_auth e st req (\<lambda>user.
       case adminOnlyMiddleware user of
         Some r \<Rightarrow> \<lparr> out_response = r, out_store = st, out_trace = [] \<rparr>
       | None \<Rightarrow> handler user)"


section \<open>Strings as the handlers use them\<close>

text \<open>
  A \<open>string\<close> holds the UTF-8 bytes of a JavaScript string. The white space that
  \<open>trim\<close> and \<open>parseInt\<close> skip is the white space and the line terminators of the
  language: TAB, LF, VT, FF, CR, SPACE, U+00A0, U+1680, U+2000 to U+200A, U+2028, U+2029,
  U+202F, U+205F, U+3000 and U+FEFF, each given here by its bytes.
\<close>

definition js_white_space :: "string list" where
  "js_white_space =
     [[CHR 0x09], [CHR 0x0A], [CHR 0x0B], [CHR 0x0C], [CHR 0x0D], [CHR 0x20],
      [CHR 0xC2, CHR 0xA0],
      [CHR 0xE1, CHR 0x9A, CHR 0x80],
      [CHR 0xE2, CHR 0x80, CHR 0x80], [CHR 0xE2, CHR 0x80, CHR 0x81],
      [CHR 0xE2, CHR 0x80, CHR 0x82], [CHR 0xE2, CHR 0x80, CHR 0x83],
      [CHR 0xE2, CHR 0x80, CHR 0x84], [CHR 0xE2, CHR 0x80, CHR 0x85],
      [CHR 0xE2, CHR 0x80, CHR 0x86], [CHR 0xE2, CHR 0x80, CHR 0x87],
      [CHR 0xE2, CHR 0x80, CHR 0x88], [CHR 0xE2, CHR 0x80, CHR 0x89],
      [CHR 0xE2, CHR 0x80, CHR 0x8A],
      [CHR 0xE2, CHR 0x80, CHR 0xA8], [CHR 0xE2, CHR 0x80, CHR 0xA9],
      [CHR 0xE2, CHR 0x80, CHR 0xAF],
      [CHR 0xE2, CHR 0x81, CHR 0x9F],
      [CHR 0xE3, CHR 0x80, CHR 0x80],
      [CHR 0xEF, CHR 0xBB, CHR 0xBF]]"

text \<open>The rest of \<open>s\<close> after the first of the sequences \<open>ws\<close> that \<open>s\<close> starts with.\<close>

fun strip_one :: "string list \<Rightarrow> string \<Rightarrow> string option" where
  "strip_one [] s = None"
| "strip_one (w # ws) s =
     (if w \<noteq> [] \<and> take (length w) s = w then Some (drop (length w) s) else strip_one ws s)"

lemma strip_one_shorter: "strip_one ws s = Some r \<Longrightarrow> length r < length s"
proof (induction ws)
  case Nil
  then show ?case by simp
next
  case (Cons w ws)
  show ?case
  proof (cases "w \<noteq> [] \<and> take (length w) s = w")
    case True
    then have "length (take (length w) s) = length w" by simp
    then have "length w \<le> length s" by simp
    moreover have "0 < length w" using True by simp
    moreover have "length r = length s - length w" using True Cons.prems by auto
    ultimately show ?thesis by arith
  next
    case False
    then have "strip_one ws s = Some r" using Cons.prems by auto
    then show ?thesis by (rule Cons.IH)
  qed
qed

text \<open>Dropping the sequences \<open>ws\<close> from the front of a string for as long as one is there.\<close>

function drop_seqs :: "string list \<Rightarrow> string \<Rightarrow> string" where
  "drop_seqs ws [] = []"
| "drop_seqs ws (c # cs) =
     (case strip_one ws (c # cs) of None \<Rightarrow> c # cs | Some r \<Rightarrow> drop_seqs ws r)"
  by pat_completeness auto
termination
  by (relation "measure (\<lambda>(ws, s). length s)") (auto dest: strip_one_shorter)




definition digit_value :: "char \<Rightarrow> int option" where
  "digit_value c = map_of (zip ''0123456789'' [0, 1, 2, 3, 4, 5, 6, 7, 8, 9]) c"

text \<open>
  The double nearest to a non-negative integer, ties to the even mantissa: below \<open>2 ^ 53\<close> the
  number itself, above it the 53 leading bits, rounded.
\<close>

function bit_length :: "int \<Rightarrow> nat" where
  "bit_length n = (if n \<le> 0 then 0 else Suc (bit_length (n div 2)))"
  by pat_completeness auto
termination
  by (relation "measure nat") auto

declare bit_length.simps [simp del]

definition round_double :: "int \<Rightarrow> int" where
  "round_double m =
     (if m < 2 ^ 53 then m
      else
        let e = bit_length m - 53; q = m div 2 ^ e; r = m mod 2 ^ e; h = 2 ^ (e - 1)
        in if h < r \<or> (r = h \<and> odd q) then (q + 1) * 2 ^ e else q * 2 ^ e)"

definition to_number :: "bool \<Rightarrow> int \<Rightarrow> js_number" where
  "to_number neg m =
     (if round_double m < 2 ^ 1024
      then Finite (if neg then - round_double m else round_double m)
      else if neg then NegInfinity else PosInfinity)"

text \<open>
  \<open>parseInt(s, 10)\<close>: leading white space, an optional sign, then the longest run of
  decimal digits, read as a number; NaN when there is no digit. (Beyond twenty digits an
  engine may read the further digits as zeros; the value is then far above every integer of
  the store either way.)
\<close>

definition parseInt10 :: "string \<Rightarrow> js_number" where
  "parseInt10 s =
     (let t = drop_seqs js_white_space s;
          neg = (t \<noteq> [] \<and> hd t = CHR ''-'');
          r = (if t \<noteq> [] \<and> (hd t = CHR ''-'' \<or> hd t = CHR ''+'') then tl t else t);
          ds = takeWhile (\<lambda>c. digit_value c \<noteq> None) r;
          m = foldl (\<lambda>a c. 10 * a + the (digit_value c)) 0 ds
      in if ds = [] then NaN else to_number neg m)"

section \<open>The handlers\<close>

text \<open>How the driver sends a value as a text parameter.\<close>

definition to_text :: "env \<Rightarrow> json \<Rightarrow> string" where
  "to_text e v = (case v of JStr s \<Rightarrow> s | _ \<Rightarrow> pg_text e v)"

subsection \<open>GET /stats/mv\<close>

definition get_stats_mv :: "env \<Rightarrow> store \<Rightarrow> request \<Rightarrow> outcome" where
  "get_stats_mv e st req =
     with_admin e st req (\<lambda>user.
       if \<not> st_available st then respond 500 (Error ServerError) st [Connect]
       else respond 200 (MvRows (st_mv st)) st [Connect, Query SelectMv, Release])"

subsection \<open>POST /users\<close>

definition user_row_view :: "srv_user \<Rightarrow> user_view" where
  "user_row_view u =
     \<lparr> uv_id = su_id u, uv_username = su_username u, uv_full_name = su_full_name u,
       uv_role = su_role u, uv_created_at = su_created_at u \<rparr>"

text \<open>
  \<open>bcrypt.hash\<close> throws on a password that is not a string. The INSERT fails with code
  23505 when the username exists; the sequence value it drew stays drawn.
\<close>

definition post_users :: "env \<Rightarrow> store \<Rightarrow> request \<Rightarrow> outcome" where
  "post_users e st req =
     with_admin e st req (\<lambda>user.
       let username = field req ''username''; password = field req ''password'';
           full_name = field req ''full_name''; role = field req ''role''
       in
       if \<not> truthy username \<or> \<not> truthy password
       then respond 400 (Error CredentialsRequired) st []
       else
         let userRole = (if role = JStr ''ADMIN'' then ''ADMIN'' else ''MANAGER'') in
         (case password of
            JStr pw \<Rightarrow>
              let passwordHash = bcrypt_hash e pw in
              if \<not> st_available st then respond 500 (Error InternalError) st [Connect]
              else
                let uname = to_text e username;
                    fname = (if truthy full_name then Some (to_text e full_name) else None);
                    tr = [Connect, Query (InsertUser uname passwordHash fname userRole), Release];
                    st1 = st \<lparr> st_user_seq := st_user_seq st + 1 \<rparr>
                in
                if uname \<in> su_username ` set (st_users st)
                then respond 400 (Error LoginTaken) st1 tr
                else
                  let row = \<lparr> su_id = st_user_seq st, su_username = uname,
                              su_password_hash = passwordHash, su_full_name = fname,
                              su_role = userRole, su_created_at = clock e \<rparr>
                  in respond 201 (CreatedUser (user_row_view row))
                       (st1 \<lparr> st_users := st_users st @ [row] \<rparr>) tr
          | _ \<Rightarrow> respond 500 (Error InternalError) st []))"

subsection \<open>DELETE /users/:id\<close>

text \<open>
  \<open>users.id\<close> is a four-byte integer (the token carries it as a number): the statement fails
  on NaN, on an infinity and on a value out of range.
\<close>

definition int4 :: "int \<Rightarrow> bool" where
  "int4 i \<longleftrightarrow> - 2147483648 \<le> i \<and> i \<le> 2147483647"

definition delete_user :: "env \<Rightarrow> store \<Rightarrow> request \<Rightarrow> outcome" where
  "delete_user e st req =
     with_admin e st req (\<lambda>user.
       let userId = parseInt10 (param_id req) in
       if userId = Finite (pl_id user) then respond 400 (Error CannotDeleteSelf) st []
       else if \<not> st_available st then respond 500 (Error InternalError) st [Connect]
       else
         let tr = [Connect, Query (DeleteUser userId), Release] in
         (case userId of
            Finite i \<Rightarrow>
              if \<not> int4 i then respond 500 (Error InternalError) st tr
              else if filter (\<lambda>u. su_id u = i) (st_users st) = []
              then respond 404 (Error UserNotFound) st tr
              else respond 200 Success
                     (st \<lparr> st_users := filter (\<lambda>u. su_id u \<noteq> i) (st_users st) \<rparr>) tr
          | _ \<Rightarrow> respond 500 (Error InternalError) st tr))"

subsection \<open>GET /orders\<close>

















subsection \<open>PATCH /orders/:id/status\<close>


subsection \<open>GET /stats\<close>

text \<open>
  The mean of \<open>updated_at - created_at\<close> over the DONE orders, in hours; an exact rational
  where the server divides floating-point numbers.
\<close>

definition avg_hours :: "store \<Rightarrow> rat option" where
  "avg_hours st =
     (let ds = concat (map (\<lambda>r. case so_updated_at r of
                                   None \<Rightarrow> []
                                 | Some u \<Rightarrow> if so_status r = ''DONE''
                                             then [epoch_diff u (so_created_at r)] else [])
                         (st_orders st))
      in if ds = [] then None else Some (sum_list ds / of_nat (length ds) / 3600))"

definition count_status :: "store \<Rightarrow> string \<Rightarrow> nat" where
  "count_status st s = length (filter (\<lambda>r. so_status r = s) (st_orders st))"

definition stats_report :: "store \<Rightarrow> stats" where
  "stats_report st =
     \<lparr> totalOrders = length (st_orders st),
       count_NEW = count_status st ''NEW'',
       count_IN_PROGRESS = count_status st ''IN_PROGRESS'',
       count_DONE = count_status st ''DONE'',
       count_CANCELED = count_status st ''CANCELED'',
       totalUsers = length (st_users st),
       avgCompletionHours = avg_hours st \<rparr>"

definition get_stats :: "env \<Rightarrow> store \<Rightarrow> request \<Rightarrow> outcome" where
  "get_stats e st req =
     with_auth e st req (\<lambda>user.
       if \<not> st_available st then respond 500 (Error InternalError) st [Connect]
       else respond 200 (Stats (stats_report st)) st
              [Connect, Query StatsOrders, Query StatsUsers, Query StatsAvg, Release])"



section \<open>Example stores\<close>

text \<open>
  One order in progress with one item of product Bracket and the route 1 DONE, 2 IN_PROGRESS,
  3 PLANNED; step 3 has no planned minutes and no workshop. One lathe that no log mentions.
\<close>

definition d5 :: db where
  "d5 = \<lparr> orders = [\<lparr>o_id = 1, o_status = ''IN_PROGRESS''\<rparr>],
          order_items = [\<lparr>oi_id = 1, oi_order_id = 1, oi_product_id = 1\<rparr>],
          products = [\<lparr>p_id = 1, p_name = ''Bracket''\<rparr>],
          operations = [\<lparr>op_id = 1, op_name = ''Milling'', op_default_minutes = Some 30\<rparr>],
          workshops = [\<lparr>w_id = 1, w_name = ''Turning''\<rparr>],
          route_steps =
            [\<lparr>rs_id = 1, rs_order_item_id = 1, rs_step_no = 1, rs_operation_id = 1,
              rs_workshop_id = Some 1, rs_status = ''DONE'', rs_planned_minutes = Some 20,
              rs_planned_finish = None\<rparr>,
             \<lparr>rs_id = 2, rs_order_item_id = 1, rs_step_no = 2, rs_operation_id = 1,
              rs_workshop_id = Some 1, rs_status = ''IN_PROGRESS'', rs_planned_minutes = Some 45,
              rs_planned_finish = None\<rparr>,
             \<lparr>rs_id = 3, rs_order_item_id = 1, rs_step_no = 3, rs_operation_id = 1,
              rs_workshop_id = None, rs_status = ''PLANNED'', rs_planned_minutes = None,
              rs_planned_finish = None\<rparr>],
          equipment = [\<lparr>e_id = 1, e_name = ''Lathe'', e_workshop_id = Some 1\<rparr>],
          operation_logs = [] \<rparr>"

text \<open>The same store when only the finished step 1 exists.\<close>

definition d_done :: db where
  "d_done = d5 \<lparr> route_steps := [hd (route_steps d5)] \<rparr>"

text \<open>The same store when the order has been canceled with steps 2 and 3 still open.\<close>

definition d_canceled :: db where
  "d_canceled = d5 \<lparr> orders := [\<lparr>o_id = 1, o_status = ''CANCELED''\<rparr>] \<rparr>"

text \<open>
  One order in progress with a single planned step on product Bracket, whose planned finish
  is the epoch itself.
\<close>

definition d13 :: db where
  "d13 = \<lparr> orders = [\<lparr>o_id = 1, o_status = ''IN_PROGRESS''\<rparr>],
           order_items = [\<lparr>oi_id = 1, oi_order_id = 1, oi_product_id = 1\<rparr>],
           products = [\<lparr>p_id = 1, p_name = ''Bracket''\<rparr>],
           operations = [\<lparr>op_id = 1, op_name = ''Milling'', op_default_minutes = Some 30\<rparr>],
           workshops = [],
           route_steps = [\<lparr>rs_id = 1, rs_order_item_id = 1, rs_step_no = 1, rs_operation_id = 1,
              rs_workshop_id = None, rs_status = ''PLANNED'', rs_planned_minutes = None,
              rs_planned_finish = Some 0\<rparr>],
           equipment = [], operation_logs = [] \<rparr>"

definition t13 :: q13_src where
  "t13 = (hd (route_steps d13), hd (order_items d13), hd (orders d13), hd (products d13),
          hd (operations d13), None)"

subsection \<open>An example deployment of the server\<close>

definition admin_user :: payload where
  "admin_user = \<lparr> pl_id = 1, pl_username = ''root'', pl_role = ''ADMIN'' \<rparr>"

definition manager_user :: payload where
  "manager_user = \<lparr> pl_id = 2, pl_username = ''mary'', pl_role = ''MANAGER'' \<rparr>"

text \<open>
  Two tokens verify, one per principal; the store keeps any text as a status.
\<close>

definition env0 :: env where
  "env0 =
     \<lparr> jwt_verify = (\<lambda>t. if t = ''A'' then Some admin_user
                          else if t = ''M'' then Some manager_user else None),
       bcrypt_hash = (\<lambda>p. ''hash:'' @ p),
       clock = 5000,
       pg_text = (\<lambda>v. ''?''),
       pg_int_in = (\<lambda>s. case parseInt10 s of Finite i \<Rightarrow> Some i | _ \<Rightarrow> None),
       status_ok = (\<lambda>s. True),
       ilike = (\<lambda>s p. False) \<rparr>"


definition order7 :: srv_order where
  "order7 = \<lparr> so_id = 7, so_customer_name = ''Ivan'', so_customer_phone = ''+7 900'',
              so_customer_email = None, so_services = ''milling'', so_message = None,
              so_status = ''NEW'', so_created_at = 100, so_updated_at = None \<rparr>"

definition order8 :: srv_order where
  "order8 = \<lparr> so_id = 8, so_customer_name = ''Anna'', so_customer_phone = ''+7 901'',
              so_customer_email = Some ''anna@example.org'', so_services = ''turning'',
              so_message = None, so_status = ''PLANNED'', so_created_at = 200,
              so_updated_at = None \<rparr>"

definition store0 :: store where
  "store0 =
     \<lparr> st_orders = [order7, order8],
       st_users =
         [\<lparr> su_id = 1, su_username = ''root'', su_password_hash = ''hash:r'',
            su_full_name = None, su_role = ''ADMIN'', su_created_at = 0 \<rparr>,
          \<lparr> su_id = 2, su_username = ''mary'', su_password_hash = ''hash:m'',
            su_full_name = Some ''Mary'', su_role = ''MANAGER'', su_created_at = 1 \<rparr>],
       st_mv = [\<lparr> mv_day = 0, mv_status = ''NEW'', mv_orders = 1 \<rparr>],
       st_user_seq = 3,
       st_available = True \<rparr>"

definition req_as :: "string \<Rightarrow> request" where
  "req_as token =
     \<lparr> authorization = Some (''Bearer '' @ token), param_id = [], body = [],
       query_q = None, query_status = None, query_sort = None, query_direction = None \<rparr>"

section \<open>Rounding and intervals\<close>

lemma floor_rat_numeral:
  "\<lfloor>(numeral a :: rat) / numeral b\<rfloor> = numeral a div numeral b"
  using floor_divide_of_int_eq [of "numeral a" "numeral b", where ?'a = rat] by simp

lemma pg_round_nonneg: "0 \<le> x \<Longrightarrow> 0 \<le> pg_round x d"
  by (simp add: pg_round_def)

lemma pg_round_nonpos:
  assumes "x < 0"
  shows "pg_round x d \<le> 0"
proof -
  have "0 \<le> (- x) * 10 ^ d" using assms by (intro mult_nonneg_nonneg) simp_all
  then have "0 \<le> - x * 10 ^ d + 1 / 2" by simp
  then have "0 \<le> \<lfloor>- x * 10 ^ d + 1 / 2\<rfloor>" by simp
  then show ?thesis using assms by (simp add: pg_round_def)
qed

lemma pg_round_mono:
  assumes xy: "x \<le> y"
  shows "pg_round x d \<le> pg_round y d"
proof (cases "0 \<le> x")
  case True
  with xy have "0 \<le> y" by simp
  moreover have "\<lfloor>x * 10 ^ d + 1 / 2\<rfloor> \<le> \<lfloor>y * 10 ^ d + 1 / 2\<rfloor>"
    using xy by (intro floor_mono) (simp add: mult_right_mono)
  ultimately show ?thesis using True
    by (simp add: pg_round_def divide_right_mono)
next
  case False
  note xneg = this
  show ?thesis
  proof (cases "0 \<le> y")
    case True
    have "pg_round x d \<le> 0" using xneg by (intro pg_round_nonpos) simp
    moreover have "0 \<le> pg_round y d" using True by (rule pg_round_nonneg)
    ultimately show ?thesis by simp
  next
    case False
    have "\<lfloor>- y * 10 ^ d + 1 / 2\<rfloor> \<le> \<lfloor>- x * 10 ^ d + 1 / 2\<rfloor>"
      using xy by (intro floor_mono) (simp add: mult_right_mono)
    then show ?thesis using False xneg
      by (simp add: pg_round_def divide_right_mono)
  qed
qed

lemma epoch_diff_mono: "a \<le> b \<Longrightarrow> epoch_diff a f \<le> epoch_diff b f"
  by (simp add: epoch_diff_def divide_right_mono)

lemma hours_overdue_nonneg:
  "pf < now \<Longrightarrow> hours_overdue now (Some pf) = Some h \<Longrightarrow> 0 \<le> h"
  by (auto simp: hours_overdue_def epoch_diff_def intro!: pg_round_nonneg)

lemma hours_overdue_mono:
  "now1 \<le> now2 \<Longrightarrow> hours_overdue now1 (Some pf) = Some h1 \<Longrightarrow>
   hours_overdue now2 (Some pf) = Some h2 \<Longrightarrow> h1 \<le> h2"
  by (auto simp: hours_overdue_def intro!: pg_round_mono divide_right_mono epoch_diff_mono)

section \<open>Joins, groups and sums\<close>

lemma concat_map_if:
  "concat (map (\<lambda>x. if P x then F x else []) xs) = concat (map F (filter P xs))"
  by (induction xs) auto

lemma filter_key_distinct:
  "distinct (map key xs) \<Longrightarrow>
   filter (\<lambda>x. key x = a) xs = (case find (\<lambda>x. key x = a) xs of None \<Rightarrow> [] | Some x \<Rightarrow> [x])"
proof (induction xs)
  case Nil
  show ?case by simp
next
  case (Cons x xs)
  show ?case
  proof (cases "key x = a")
    case True
    with Cons.prems have "\<forall>y\<in>set xs. key y \<noteq> a" by (force simp: image_iff)
    then have "filter (\<lambda>x. key x = a) xs = []" by (simp add: filter_empty_conv)
    with True show ?thesis by simp
  next
    case False
    with Cons show ?thesis by simp
  qed
qed

lemma find_key_Some:
  "a \<in> key ` set xs \<Longrightarrow> \<exists>x. find (\<lambda>x. key x = a) xs = Some x \<and> key x = a \<and> x \<in> set xs"
  by (induction xs) auto

lemma filter_eq_remdups: "filter (\<lambda>k. k = a) (remdups ks) = (if a \<in> set ks then [a] else [])"
  by (induction ks) auto

lemma group_by_filter_key:
  "filter (\<lambda>g. fst g = a) (group_by key rows) =
     (if a \<in> key ` set rows then [(a, filter (\<lambda>r. key r = a) rows)] else [])"
proof -
  have "filter (\<lambda>g. fst g = a) (group_by key rows) =
        map (\<lambda>k. (k, filter (\<lambda>r. key r = k) rows)) (filter (\<lambda>k. k = a) (remdups (map key rows)))"
    by (simp add: group_by_def filter_map comp_def)
  then show ?thesis by (simp add: filter_eq_remdups)
qed

lemma sql_sum_Some:
  "sql_sum (map (\<lambda>x. Some (f x)) xs) = (if xs = [] then None else Some (sum_list (map f xs)))"
proof (cases xs)
  case Nil
  then show ?thesis by (simp add: sql_sum_def)
next
  case (Cons y ys)
  have "filter (\<lambda>v. v \<noteq> None) (map (\<lambda>x. Some (f x)) xs) = map (\<lambda>x. Some (f x)) xs"
    by (induction xs) auto
  then show ?thesis using Cons by (simp add: sql_sum_def comp_def)
qed

lemma left_join_key:
  "distinct (map key bs) \<Longrightarrow> left_join (\<lambda>b. key b = a) bs = [find (\<lambda>b. key b = a) bs]"
  by (simp add: left_join_def filter_key_distinct split: option.splits)

lemma step_minutes_spec:
  "find (\<lambda>op. op_id op = rs_operation_id rs) (operations d) = Some op \<Longrightarrow>
   step_minutes rs op = Some (spec_step_minutes d rs)"
  by (simp add: step_minutes_def spec_step_minutes_def split: option.splits)

lemma pg_round_of_int: "pg_round (of_int k) 0 = of_int k"
proof -
  have a: "\<lfloor>(of_int k :: rat) + 1 / 2\<rfloor> = k" by linarith
  have b: "\<lfloor>- (of_int k :: rat) + 1 / 2\<rfloor> = - k" by linarith
  show ?thesis using a b by (simp add: pg_round_def)
qed

lemma nzp_cost_exact: "pg_round (of_int m / 60 * 1500) 0 = of_int m / 60 * 1500"
proof -
  have "(of_int m :: rat) / 60 * 1500 = of_int (25 * m)" by simp
  then show ?thesis by (simp only: pg_round_of_int)
qed

lemma q16_from_wf:
  assumes "wf_db d"
  shows "q16_from d =
    map (\<lambda>rs. (rs, the (find (\<lambda>op. op_id op = rs_operation_id rs) (operations d)),
               (case rs_workshop_id rs of None \<Rightarrow> None
                | Some i \<Rightarrow> find (\<lambda>w. w_id w = i) (workshops d))))
        (route_steps d)"
proof -
  have dops: "distinct (map op_id (operations d))" and dws: "distinct (map w_id (workshops d))"
    and fk: "\<forall>rs \<in> set (route_steps d). rs_operation_id rs \<in> op_id ` set (operations d)"
    using assms by (simp_all add: wf_db_def list_all_iff)
  have lj: "left_join (\<lambda>w. Some (w_id w) = rs_workshop_id rs) (workshops d) =
        [case rs_workshop_id rs of None \<Rightarrow> None | Some i \<Rightarrow> find (\<lambda>w. w_id w = i) (workshops d)]" for rs :: route_step_row
  proof (cases "rs_workshop_id rs")
    case None
    then show ?thesis by (simp add: left_join_def)
  next
    case (Some i)
    have "(\<lambda>w. Some (w_id w) = rs_workshop_id rs) = (\<lambda>w. w_id w = i)" using Some by auto
    then show ?thesis using Some left_join_key [OF dws, of i] by simp
  qed
  have one: "(concat (map (\<lambda>op. map (\<lambda>w. (rs, op, w)) (left_join (\<lambda>w. Some (w_id w) = rs_workshop_id rs) (workshops d)))
                 (filter (\<lambda>op. op_id op = rs_operation_id rs) (operations d)))) =
        [(rs, the (find (\<lambda>op. op_id op = rs_operation_id rs) (operations d)),
               (case rs_workshop_id rs of None \<Rightarrow> None
                | Some i \<Rightarrow> find (\<lambda>w. w_id w = i) (workshops d)))]"
    if "rs \<in> set (route_steps d)" for rs :: route_step_row
  proof -
    from fk that obtain op where "find (\<lambda>op. op_id op = rs_operation_id rs) (operations d) = Some op"
      using find_key_Some [of "rs_operation_id rs" op_id "operations d"] by blast
    then show ?thesis by (simp add: filter_key_distinct [OF dops] lj)
  qed
  have "q16_from d = concat (map (\<lambda>rs. concat (map (\<lambda>op. map (\<lambda>w. (rs, op, w)) (left_join (\<lambda>w. Some (w_id w) = rs_workshop_id rs) (workshops d)))
                 (filter (\<lambda>op. op_id op = rs_operation_id rs) (operations d)))) (route_steps d))"
    by (simp add: q16_from_def concat_map_if)
  also have "\<dots> = concat (map (\<lambda>rs. [(rs, the (find (\<lambda>op. op_id op = rs_operation_id rs) (operations d)),
               (case rs_workshop_id rs of None \<Rightarrow> None
                | Some i \<Rightarrow> find (\<lambda>w. w_id w = i) (workshops d)))]) (route_steps d))"
    using one by (intro arg_cong [where f = concat] map_cong refl) 
  finally show ?thesis by simp
qed


lemma sort_key_short: "length xs \<le> 1 \<Longrightarrow> sort_key f xs = xs"
  by (cases xs) auto

lemma q16_group_sum:
  assumes wf: "wf_db d"
  shows "sql_sum (map q16_minutes (filter q16_not_done (filter (\<lambda>r. q16_key r = k) (q16_from d)))) =
     (if workshop_pending d k = [] then None else Some (spec_wip_minutes d k))"
proof -
  define g where "g = (\<lambda>rs :: route_step_row. (rs, the (find (\<lambda>op. op_id op = rs_operation_id rs) (operations d)),
               (case rs_workshop_id rs of None \<Rightarrow> None
                | Some i \<Rightarrow> find (\<lambda>w. w_id w = i) (workshops d))))"
  have frm: "q16_from d = map g (route_steps d)"
    unfolding g_def by (rule q16_from_wf [OF wf])
  have key: "q16_key (g rs) = step_workshop d rs" for rs
    by (simp add: g_def step_workshop_def split: option.splits)
  have nd: "q16_not_done (g rs) = (rs_status rs \<noteq> ''DONE'')" for rs
    by (simp add: g_def)
  have fk: "\<forall>rs \<in> set (route_steps d). rs_operation_id rs \<in> op_id ` set (operations d)"
    using wf by (simp add: wf_db_def list_all_iff)
  have mins: "q16_minutes (g rs) = Some (spec_step_minutes d rs)" if "rs \<in> set (route_steps d)" for rs
  proof -
    from fk that obtain op where op: "find (\<lambda>op. op_id op = rs_operation_id rs) (operations d) = Some op"
      using find_key_Some [of "rs_operation_id rs" op_id "operations d"] by blast
    then show ?thesis by (simp add: g_def step_minutes_spec [OF op])
  qed
  have "filter q16_not_done (filter (\<lambda>r. q16_key r = k) (q16_from d)) = map g (workshop_pending d k)"
    by (simp add: frm filter_map comp_def key nd workshop_pending_def conj_commute)
  moreover have "map q16_minutes (map g (workshop_pending d k)) =
      map (\<lambda>rs. Some (spec_step_minutes d rs)) (workshop_pending d k)"
    using mins by (simp add: workshop_pending_def)
  ultimately show ?thesis
    by (simp only: sql_sum_Some spec_wip_minutes_def)
qed

lemma q16_group_keys:
  assumes wf: "wf_db d"
  shows "k \<in> q16_key ` set (q16_from d) \<longleftrightarrow> (\<exists>rs \<in> set (route_steps d). step_workshop d rs = k)"
proof -
  have "q16_key (rs, p, case rs_workshop_id rs of None \<Rightarrow> None
                | Some i \<Rightarrow> find (\<lambda>w. w_id w = i) (workshops d)) = step_workshop d rs"
    for rs :: route_step_row and p
    by (simp add: step_workshop_def split: option.splits)
  then have "q16_key ` set (q16_from d) = step_workshop d ` set (route_steps d)"
    by (simp add: q16_from_wf [OF wf] image_image)
  then show ?thesis by auto
qed

lemma q16_wip_filter:
  assumes wf: "wf_db d"
  shows "filter (\<lambda>g. fst g = k) (q16_wip d) =
    (if \<exists>rs \<in> set (route_steps d). step_workshop d rs = k
     then [(k, if workshop_pending d k = [] then None else Some (spec_wip_minutes d k))] else [])"
proof -
  have a: "filter (\<lambda>g. fst g = k) (q16_wip d) =
     map (\<lambda>(k, rows). (k, sql_sum (map q16_minutes (filter q16_not_done rows))))
       (filter (\<lambda>g. fst g = k) (group_by q16_key (q16_from d)))"
    by (simp add: q16_wip_def filter_map comp_def case_prod_beta)
  have b: "filter (\<lambda>g. fst g = k) (group_by q16_key (q16_from d)) =
     (if \<exists>rs \<in> set (route_steps d). step_workshop d rs = k
      then [(k, filter (\<lambda>r. q16_key r = k) (q16_from d))] else [])"
    by (simp only: group_by_filter_key q16_group_keys [OF wf])
  show ?thesis
    unfolding a b using q16_group_sum [OF wf, of k] by (simp del: filter_filter)
qed

lemma q15_from_wf:
  assumes wf: "wf_db d"
  shows "q15_from d = concat (map (order_rows d) (orders d))"
proof -
  have dops: "distinct (map op_id (operations d))"
    and fk: "\<forall>rs \<in> set (route_steps d). rs_operation_id rs \<in> op_id ` set (operations d)"
    using wf by (simp_all add: wf_db_def list_all_iff)
  have one: "map (\<lambda>op. (od, oi, rs, op)) (filter (\<lambda>op. op_id op = rs_operation_id rs) (operations d)) =
      [(od, oi, rs, the (find (\<lambda>op. op_id op = rs_operation_id rs) (operations d)))]"
    if "rs \<in> set (route_steps d)" for rs :: route_step_row and od :: order_row and oi :: order_item_row
  proof -
    from fk that obtain op where "find (\<lambda>op. op_id op = rs_operation_id rs) (operations d) = Some op"
      using find_key_Some [of "rs_operation_id rs" op_id "operations d"] by blast
    then show ?thesis by (simp add: filter_key_distinct [OF dops])
  qed
  have inner: "concat (map (\<lambda>rs. map (\<lambda>op. (od, oi, rs, op))
                  (filter (\<lambda>op. op_id op = rs_operation_id rs) (operations d)))
             (filter (\<lambda>rs. rs_order_item_id rs = oi_id oi) (route_steps d))) =
        map (\<lambda>rs. (od, oi, rs, the (find (\<lambda>op. op_id op = rs_operation_id rs) (operations d))))
             (filter (\<lambda>rs. rs_order_item_id rs = oi_id oi) (route_steps d))"
    for od :: order_row and oi :: order_item_row
  proof -
    have "map (\<lambda>rs. map (\<lambda>op. (od, oi, rs, op))
                  (filter (\<lambda>op. op_id op = rs_operation_id rs) (operations d)))
             (filter (\<lambda>rs. rs_order_item_id rs = oi_id oi) (route_steps d)) =
          map (\<lambda>rs. [(od, oi, rs, the (find (\<lambda>op. op_id op = rs_operation_id rs) (operations d)))])
             (filter (\<lambda>rs. rs_order_item_id rs = oi_id oi) (route_steps d))"
      using one by (intro map_cong refl) simp
    then show ?thesis by (simp only: concat_map_singleton)
  qed
  show ?thesis
    by (simp add: q15_from_def concat_map_if inner order_rows_def [abs_def])
qed

lemma order_rows_shape:
  "r \<in> set (order_rows d od) \<Longrightarrow>
     \<exists>oi rs. r = (od, oi, rs, the (find (\<lambda>op. op_id op = rs_operation_id rs) (operations d)))
        \<and> rs \<in> set (route_steps d)"
  by (auto simp: order_rows_def)

lemma filter_concat_key:
  assumes "distinct (map key xs)" and "\<And>x r. x \<in> set xs \<Longrightarrow> r \<in> set (F x) \<Longrightarrow> rk r = key x"
  shows "filter (\<lambda>r. rk r = a) (concat (map F xs)) =
     (case find (\<lambda>x. key x = a) xs of None \<Rightarrow> [] | Some x \<Rightarrow> F x)"
  using assms
proof (induction xs)
  case Nil
  show ?case by simp
next
  case (Cons x xs)
  have IH: "filter (\<lambda>r. rk r = a) (concat (map F xs)) =
     (case find (\<lambda>x. key x = a) xs of None \<Rightarrow> [] | Some x \<Rightarrow> F x)"
    using Cons by simp
  show ?case
  proof (cases "key x = a")
    case True
    have hd: "filter (\<lambda>r. rk r = a) (F x) = F x"
      using Cons.prems(2) [of x] True by (simp add: filter_id_conv)
    have "\<forall>y\<in>set xs. key y \<noteq> a" using True Cons.prems(1) by (force simp: image_iff)
    then have "find (\<lambda>x. key x = a) xs = None" by (simp add: find_None_iff)
    with IH hd True show ?thesis by simp
  next
    case False
    have "filter (\<lambda>r. rk r = a) (F x) = []"
      using Cons.prems(2) [of x] False by (simp add: filter_empty_conv)
    with IH False show ?thesis by simp
  qed
qed

lemma filter_concat_where:
  assumes "\<And>x r. r \<in> set (F x) \<Longrightarrow> P r = Q x"
  shows "filter P (concat (map F xs)) = concat (map F (filter Q xs))"
proof (induction xs)
  case Nil
  show ?case by simp
next
  case (Cons x xs)
  have "filter P (F x) = (if Q x then F x else [])"
    using assms [of _ x] by (simp add: filter_id_conv filter_empty_conv)
  with Cons show ?case by simp
qed

lemma mset_filter_disj:
  "\<forall>x \<in> set xs. \<not> (P x \<and> Q x) \<Longrightarrow>
   mset (filter P xs) + mset (filter Q xs) = mset (filter (\<lambda>x. P x \<or> Q x) xs)"
  by (induction xs) auto

lemma mset_concat_filter_keys:
  "distinct (map key ys) \<Longrightarrow>
   mset (concat (map (\<lambda>y. filter (\<lambda>x. ref x = key y) xs) ys)) =
   mset (filter (\<lambda>x. \<exists>y \<in> set ys. key y = ref x) xs)"
proof (induction ys)
  case Nil
  show ?case by simp
next
  case (Cons y ys)
  have disj: "\<forall>x \<in> set xs. \<not> (ref x = key y \<and> (\<exists>z \<in> set ys. key z = ref x))"
    using Cons.prems by (force simp: image_iff)
  have "mset (concat (map (\<lambda>y. filter (\<lambda>x. ref x = key y) xs) (y # ys))) =
        mset (filter (\<lambda>x. ref x = key y) xs) + mset (filter (\<lambda>x. \<exists>y \<in> set ys. key y = ref x) xs)"
    using Cons by simp
  also have "\<dots> = mset (filter (\<lambda>x. ref x = key y \<or> (\<exists>z \<in> set ys. key z = ref x)) xs)"
    using disj by (rule mset_filter_disj)
  also have "\<dots> = mset (filter (\<lambda>x. \<exists>z \<in> set (y # ys). key z = ref x) xs)"
    by (intro arg_cong [where f = mset] filter_cong refl) auto
  finally show ?case .
qed

lemma order_rows_steps:
  assumes wf: "wf_db d"
  shows "mset (map (\<lambda>(od, oi, rs, op). rs) (order_rows d od)) = mset (order_steps d (o_id od))"
proof -
  have dis: "distinct (map oi_id (filter (\<lambda>oi. oi_order_id oi = o_id od) (order_items d)))"
    using wf by (simp add: wf_db_def distinct_map_filter)
  have "map (\<lambda>(od, oi, rs, op). rs) (order_rows d od) =
     concat (map (\<lambda>oi. filter (\<lambda>rs. rs_order_item_id rs = oi_id oi) (route_steps d))
       (filter (\<lambda>oi. oi_order_id oi = o_id od) (order_items d)))"
    by (simp add: order_rows_def map_concat comp_def)
  also have "mset \<dots> = mset (filter (\<lambda>rs. \<exists>oi \<in> set (filter (\<lambda>oi. oi_order_id oi = o_id od) (order_items d)).
       oi_id oi = rs_order_item_id rs) (route_steps d))"
    by (rule mset_concat_filter_keys [OF dis])
  also have "\<dots> = mset (order_steps d (o_id od))"
    unfolding order_steps_def by (intro arg_cong [where f = mset] filter_cong refl) auto
  finally show ?thesis .
qed


lemma sum_list_mset_cong:
  assumes "mset xs = mset ys"
  shows "sum_list (map f xs) = (sum_list (map f ys) :: int)"
proof -
  have "mset (map f xs) = mset (map f ys)" using assms by simp
  then have "sum_mset (mset (map f xs)) = sum_mset (mset (map f ys))" by (rule arg_cong)
  then show ?thesis by (simp only: sum_mset_sum_list)
qed

lemma order_rows_sum:
  assumes wf: "wf_db d"
  shows "sql_sum (map q15_minutes (filter q15_not_done (order_rows d od))) =
     (if pending_steps d (o_id od) = [] then None else Some (spec_remaining_minutes d (o_id od)))"
proof -
  define third :: "q15_src \<Rightarrow> route_step_row" where "third = (\<lambda>(od, oi, rs, op). rs)"
  define nd where "nd = (\<lambda>rs :: route_step_row. rs_status rs \<noteq> ''DONE'')"
  define P where "P = filter nd (map third (order_rows d od))"
  have fk: "\<forall>rs \<in> set (route_steps d). rs_operation_id rs \<in> op_id ` set (operations d)"
    using wf by (simp add: wf_db_def list_all_iff)
  have mins: "q15_minutes r = Some (spec_step_minutes d (third r))" if "r \<in> set (order_rows d od)" for r
  proof -
    from order_rows_shape [OF that] obtain oi rs where
      r: "r = (od, oi, rs, the (find (\<lambda>op. op_id op = rs_operation_id rs) (operations d)))"
      and rs: "rs \<in> set (route_steps d)" by blast
    from fk rs obtain op where op: "find (\<lambda>op. op_id op = rs_operation_id rs) (operations d) = Some op"
      using find_key_Some [of "rs_operation_id rs" op_id "operations d"] by blast
    show ?thesis using r op by (simp add: third_def step_minutes_spec [OF op])
  qed
  have ndr: "q15_not_done r = nd (third r)" for r
    by (cases r) (simp add: nd_def third_def)
  have "filter q15_not_done (order_rows d od) = filter (nd \<circ> third) (order_rows d od)"
    by (intro filter_cong refl) (simp add: ndr)
  then have "map q15_minutes (filter q15_not_done (order_rows d od)) =
      map (\<lambda>r. Some (spec_step_minutes d (third r))) (filter (nd \<circ> third) (order_rows d od))"
    using mins by simp
  also have "\<dots> = map (\<lambda>rs. Some (spec_step_minutes d rs)) P"
    by (simp add: P_def filter_map comp_def)
  finally have lhs: "sql_sum (map q15_minutes (filter q15_not_done (order_rows d od))) =
      (if P = [] then None else Some (sum_list (map (spec_step_minutes d) P)))"
    by (simp only: sql_sum_Some)
  have "mset (map third (order_rows d od)) = mset (order_steps d (o_id od))"
    unfolding third_def by (rule order_rows_steps [OF wf])
  then have ms: "mset P = mset (pending_steps d (o_id od))"
    by (simp add: P_def pending_steps_def nd_def)
  have e: "P = [] \<longleftrightarrow> pending_steps d (o_id od) = []"
    using ms by (metis mset_zero_iff)
  have "sum_list (map (spec_step_minutes d) P) = spec_remaining_minutes d (o_id od)"
    unfolding spec_remaining_minutes_def using ms by (rule sum_list_mset_cong)
  with lhs e show ?thesis by simp
qed

lemma order_rows_empty:
  assumes wf: "wf_db d"
  shows "order_rows d od = [] \<longleftrightarrow> order_steps d (o_id od) = []"
proof -
  have "order_rows d od = [] \<longleftrightarrow> map (\<lambda>(od, oi, rs, op). rs) (order_rows d od) = []" by simp
  also have "\<dots> \<longleftrightarrow> order_steps d (o_id od) = []"
    using order_rows_steps [OF wf, of od] by (metis mset_zero_iff)
  finally show ?thesis .
qed

lemma find_filter_key:
  "distinct (map key xs) \<Longrightarrow> x \<in> set xs \<Longrightarrow>
   find (\<lambda>y. key y = key x) (filter Q xs) = (if Q x then Some x else None)"
proof (induction xs)
  case Nil
  then show ?case by simp
next
  case (Cons y ys)
  show ?case
  proof (cases "y = x")
    case True
    have "\<forall>z\<in>set ys. key z \<noteq> key x" using True Cons.prems(1) by (force simp: image_iff)
    then have "find (\<lambda>y. key y = key x) (filter Q ys) = None" by (simp add: find_None_iff)
    with True show ?thesis by simp
  next
    case False
    with Cons.prems have "x \<in> set ys" "key y \<noteq> key x" by (auto simp: image_iff)
    with Cons show ?thesis by simp
  qed
qed

lemma key_in_image_filter: "a \<in> key ` set rows \<longleftrightarrow> filter (\<lambda>r. key r = a) rows \<noteq> []"
  by (simp add: filter_empty_conv image_iff) metis

lemma nzp_cost_exact': "pg_round (25 * of_int m) 0 = 25 * of_int m"
proof -
  have "25 * (of_int m :: rat) = of_int (25 * m)" by simp
  then show ?thesis by (simp only: pg_round_of_int)
qed

lemma q15_group_rows:
  assumes wf: "wf_db d" and od: "od \<in> set (orders d)"
  shows "filter (\<lambda>r. q15_key r = o_id od) (filter q15_where (q15_from d)) =
     (if status_open od then order_rows d od else [])"
proof -
  have w: "q15_where r = status_open x" if "r \<in> set (order_rows d x)" for r x
    using order_rows_shape [OF that] by (auto simp: status_open_def)
  have k: "q15_key r = o_id x" if "r \<in> set (order_rows d x)" for r x
    using order_rows_shape [OF that] by auto
  have dis: "distinct (map o_id (filter status_open (orders d)))"
    using wf by (simp add: wf_db_def distinct_map_filter)
  have dis0: "distinct (map o_id (orders d))" using wf by (simp add: wf_db_def)
  have "filter q15_where (q15_from d) = concat (map (order_rows d) (filter status_open (orders d)))"
    unfolding q15_from_wf [OF wf] using w by (rule filter_concat_where)
  then have "filter (\<lambda>r. q15_key r = o_id od) (filter q15_where (q15_from d)) =
     (case find (\<lambda>x. o_id x = o_id od) (filter status_open (orders d)) of
        None \<Rightarrow> [] | Some x \<Rightarrow> order_rows d x)"
    using filter_concat_key [OF dis, of "order_rows d" q15_key "o_id od"] k by simp
  then show ?thesis
    by (simp add: find_filter_key [OF dis0 od])
qed

lemma q15_remaining_filter:
  assumes wf: "wf_db d" and od: "od \<in> set (orders d)"
  shows "filter (\<lambda>g. fst g = o_id od) (q15_remaining d) =
    (if status_open od \<and> order_steps d (o_id od) \<noteq> []
     then [(o_id od, if pending_steps d (o_id od) = [] then None
                     else Some (spec_remaining_minutes d (o_id od)))]
     else [])"
proof -
  define rows where "rows = filter q15_where (q15_from d)"
  have a: "filter (\<lambda>g. fst g = o_id od) (q15_remaining d) =
     map (\<lambda>(k, rows). (k, sql_sum (map q15_minutes (filter q15_not_done rows))))
       (filter (\<lambda>g. fst g = o_id od) (group_by q15_key rows))"
    by (simp add: q15_remaining_def rows_def filter_map comp_def case_prod_beta)
  have g: "filter (\<lambda>r. q15_key r = o_id od) rows = (if status_open od then order_rows d od else [])"
    unfolding rows_def by (rule q15_group_rows [OF wf od])
  have "o_id od \<in> q15_key ` set rows \<longleftrightarrow> filter (\<lambda>r. q15_key r = o_id od) rows \<noteq> []"
    by (rule key_in_image_filter)
  also have "\<dots> \<longleftrightarrow> status_open od \<and> order_steps d (o_id od) \<noteq> []"
    by (simp add: g order_rows_empty [OF wf])
  finally have mem: "o_id od \<in> q15_key ` set rows \<longleftrightarrow> status_open od \<and> order_steps d (o_id od) \<noteq> []" .
  have b: "filter (\<lambda>g. fst g = o_id od) (group_by q15_key rows) =
     (if status_open od \<and> order_steps d (o_id od) \<noteq> [] then [(o_id od, order_rows d od)] else [])"
    by (simp add: group_by_filter_key mem g)
  show ?thesis
    unfolding a b using order_rows_sum [OF wf, of od] by simp
qed

section \<open>Q13: overdue hours\<close>

lemma set_Q13: "set (Q13 d now) = q13_select now ` {t \<in> set (q13_from d). q13_where now t}"
  by (simp add: Q13_def)

text \<open>
  Claim C3. Take a joined row \<open>t\<close> of Q13's FROM clause (a route step with its item, order,
  product, operation and workshop) that passes the filter at the instant \<open>now1\<close>: its
  planned finish is set and strictly before \<open>now1\<close>, its status is not DONE. Then Q13
  reports it at \<open>now1\<close> and at every later instant \<open>now2\<close>, its \<open>hours_overdue\<close> is a
  number that is at least zero, and the value at \<open>now2\<close> is not smaller than the value at
  \<open>now1\<close>. Moreover every row Q13 reports has \<open>hours_overdue\<close> at least zero.
\<close>

theorem Q13_hours_overdue:
  assumes "now1 \<le> now2" and "t \<in> set (q13_from d)" and "q13_where now1 t"
  shows "q13_select now1 t \<in> set (Q13 d now1) \<and> q13_select now2 t \<in> set (Q13 d now2)
    \<and> (\<exists>h1 h2. q13_hours_overdue (q13_select now1 t) = Some h1
          \<and> q13_hours_overdue (q13_select now2 t) = Some h2 \<and> 0 \<le> h1 \<and> h1 \<le> h2)
    \<and> (\<forall>r \<in> set (Q13 d now1). \<exists>h. q13_hours_overdue r = Some h \<and> 0 \<le> h)"
proof -
  obtain rs oi od p op w where t: "t = (rs, oi, od, p, op, w)" by (cases t) auto
  from assms(3) t obtain pf where
    pf: "rs_planned_finish rs = Some pf" "pf < now1" "rs_status rs \<noteq> ''DONE''"
    by (auto split: option.splits)
  with assms(1) have w2: "q13_where now2 t" using t by simp
  have in1: "q13_select now1 t \<in> set (Q13 d now1)" using assms(2,3) by (auto simp: set_Q13)
  have in2: "q13_select now2 t \<in> set (Q13 d now2)" using assms(2) w2 by (auto simp: set_Q13)
  obtain h1 where h1: "hours_overdue now1 (Some pf) = Some h1" by (simp add: hours_overdue_def)
  obtain h2 where h2: "hours_overdue now2 (Some pf) = Some h2" by (simp add: hours_overdue_def)
  have "0 \<le> h1" using pf(2) h1 by (rule hours_overdue_nonneg)
  moreover have "h1 \<le> h2" using assms(1) h1 h2 by (rule hours_overdue_mono)
  ultimately have mid: "\<exists>h1 h2. q13_hours_overdue (q13_select now1 t) = Some h1
          \<and> q13_hours_overdue (q13_select now2 t) = Some h2 \<and> 0 \<le> h1 \<and> h1 \<le> h2"
    using t pf(1) h1 h2 by simp
  have all: "\<forall>r \<in> set (Q13 d now1). \<exists>h. q13_hours_overdue r = Some h \<and> 0 \<le> h"
  proof
    fix r assume "r \<in> set (Q13 d now1)"
    then obtain u where u: "u \<in> set (q13_from d)" "q13_where now1 u" "r = q13_select now1 u"
      by (auto simp: set_Q13)
    obtain rs' oi' od' p' op' w' where u': "u = (rs', oi', od', p', op', w')" by (cases u) auto
    from u(2) u' obtain pf' where pf': "rs_planned_finish rs' = Some pf'" "pf' < now1"
      by (auto split: option.splits)
    obtain h where h: "hours_overdue now1 (Some pf') = Some h" by (simp add: hours_overdue_def)
    have "0 \<le> h" using pf'(2) h by (rule hours_overdue_nonneg)
    then show "\<exists>h. q13_hours_overdue r = Some h \<and> 0 \<le> h" using u(3) u' pf'(1) h by simp
  qed
  from in1 in2 mid all show ?thesis by blast
qed

text \<open>
  The step of \<open>d13\<close>, one day and then a day and a half after its planned finish: 24.0 and
  36.0 hours overdue.
\<close>

theorem Q13_hours_overdue_witness:
  "(86400000000::int) \<le> 129600000000 \<and> t13 \<in> set (q13_from d13) \<and> q13_where 86400000000 t13
   \<and> q13_select 86400000000 t13 \<in> set (Q13 d13 86400000000)
   \<and> q13_select 129600000000 t13 \<in> set (Q13 d13 129600000000)
   \<and> q13_hours_overdue (q13_select 86400000000 t13) = Some 24
   \<and> q13_hours_overdue (q13_select 129600000000 t13) = Some 36"
proof -
  have h1: "(86400000000::int) \<le> 129600000000" by simp
  have h2: "t13 \<in> set (q13_from d13)"
    by (simp add: t13_def d13_def q13_from_def left_join_def)
  have h3: "q13_where 86400000000 t13" by (simp add: t13_def d13_def)
  have v1: "q13_hours_overdue (q13_select 86400000000 t13) = Some 24"
    by (simp add: t13_def d13_def hours_overdue_def epoch_diff_def pg_round_def floor_rat_numeral)
  have v2: "q13_hours_overdue (q13_select 129600000000 t13) = Some 36"
    by (simp add: t13_def d13_def hours_overdue_def epoch_diff_def pg_round_def floor_rat_numeral)
  from Q13_hours_overdue [OF h1 h2 h3] h1 h2 h3 v1 v2 show ?thesis by blast
qed

section \<open>Q15 and Q16: work in progress\<close>

text \<open>
  Claim C2 fails as stated: in \<open>d_done\<close> the order is IN_PROGRESS and all of its steps are
  DONE, and Q15 reports the valuation NULL, not zero (the filtered SUM has no input row).
\<close>

theorem Q15_all_done_counterexample:
  "map o_status (orders d_done) = [''IN_PROGRESS''] \<and> pending_steps d_done 1 = []
   \<and> map q15_remaining_minutes (Q15 d_done) = [None]
   \<and> map q15_nzp_cost_rub (Q15 d_done) = [None]"
  by (simp add: d_done_def d5_def pending_steps_def order_steps_def Q15_def q15_remaining_def
      q15_from_def group_by_def sql_sum_def)

text \<open>
  Claim C2, amended. In a store whose identifiers are keys and whose steps name existing
  operations, take any order. Q15 reports exactly one row for it when its status is PLANNED
  or IN_PROGRESS and it has at least one route step, and no row otherwise. In that row
  \<open>remaining_minutes\<close> is the sum, over the order's steps that are not DONE, of the planned
  minutes if present, else the operation's default minutes, else zero, and the valuation is
  \<open>remaining_minutes / 60\<close> times the rate of 1500; when the order has no step that is not
  DONE, both are NULL.
\<close>

theorem Q15_per_order:
  assumes wf: "wf_db d" and od: "od \<in> set (orders d)"
  shows "filter (\<lambda>r. q15_order_id r = o_id od) (Q15 d) =
    (if o_status od \<in> {''PLANNED'', ''IN_PROGRESS''} \<and> order_steps d (o_id od) \<noteq> [] then
       [\<lparr> q15_order_id = o_id od,
          q15_remaining_minutes =
            (if pending_steps d (o_id od) = [] then None
             else Some (spec_remaining_minutes d (o_id od))),
          q15_remaining_hours =
            (if pending_steps d (o_id od) = [] then None
             else Some (pg_round (of_int (spec_remaining_minutes d (o_id od)) / 60) 2)),
          q15_rate_rub_per_hour = 1500,
          q15_nzp_cost_rub =
            (if pending_steps d (o_id od) = [] then None
             else Some (of_int (spec_remaining_minutes d (o_id od)) / 60 * 1500)) \<rparr>]
     else [])"
proof -
  have sel: "(\<lambda>r. q15_order_id r = o_id od) \<circ> q15_select = (\<lambda>g. fst g = o_id od)"
    by (auto simp: fun_eq_iff)
  have "filter (\<lambda>r. q15_order_id r = o_id od) (Q15 d) =
     sort_key (\<lambda>r. desc_key (q15_nzp_cost_rub r))
       (map q15_select (filter (\<lambda>g. fst g = o_id od) (q15_remaining d)))"
    by (simp only: Q15_def filter_sort filter_map sel)
  then show ?thesis
    unfolding q15_remaining_filter [OF wf od]
    by (simp add: status_open_def nzp_cost_exact')
qed

theorem Q15_per_order_witness:
  "wf_db d5 \<and> hd (orders d5) \<in> set (orders d5)
   \<and> filter (\<lambda>r. q15_order_id r = o_id (hd (orders d5))) (Q15 d5) =
       [\<lparr> q15_order_id = 1, q15_remaining_minutes = Some 75, q15_remaining_hours = Some (5 / 4),
          q15_rate_rub_per_hour = 1500, q15_nzp_cost_rub = Some 1875 \<rparr>]"
proof -
  have h1: "wf_db d5" by (simp add: wf_db_def d5_def)
  have h2: "hd (orders d5) \<in> set (orders d5)" by (simp add: d5_def)
  have st: "o_status (hd (orders d5)) \<in> {''PLANNED'', ''IN_PROGRESS''}"
    by (simp add: d5_def)
  have s: "order_steps d5 (o_id (hd (orders d5))) \<noteq> []"
    by (simp add: order_steps_def d5_def)
  have p: "pending_steps d5 (o_id (hd (orders d5))) \<noteq> []"
    by (simp add: pending_steps_def order_steps_def d5_def)
  have r: "spec_remaining_minutes d5 (o_id (hd (orders d5))) = 75"
    by (simp add: spec_remaining_minutes_def pending_steps_def order_steps_def
        spec_step_minutes_def d5_def)
  have q1: "pg_round (rat_of_int 75 / 60) 2 = 5 / 4"
    by (simp add: pg_round_def floor_rat_numeral)
  have q2: "rat_of_int 75 / 60 * 1500 = 1875" by simp
  have i: "o_id (hd (orders d5)) = 1" by (simp add: d5_def)
  have "filter (\<lambda>r. q15_order_id r = o_id (hd (orders d5))) (Q15 d5) =
       [\<lparr> q15_order_id = o_id (hd (orders d5)), q15_remaining_minutes = Some 75,
          q15_remaining_hours = Some (5 / 4), q15_rate_rub_per_hour = 1500,
          q15_nzp_cost_rub = Some 1875 \<rparr>]"
    using Q15_per_order [OF h1 h2] by (simp only: st s p r q1 q2 simp_thms if_True if_False)
  with h1 h2 show ?thesis by (simp add: i)
qed

text \<open>
  Claim C4 fails as stated: in \<open>d_canceled\<close> the only order is CANCELED, so Q15 reports
  nothing, while Q16 still counts its two open steps: 45 minutes in workshop Turning and 30
  minutes in the bucket without a workshop.
\<close>

theorem Q16_canceled_order_counterexample:
  "map o_status (orders d_canceled) = [''CANCELED''] \<and> Q15 d_canceled = []
   \<and> map (\<lambda>r. (q16_workshop r, q16_wip_minutes r)) (Q16 d_canceled) =
       [(Some ''Turning'', Some 45), (None, Some 30)]"
  by (simp add: d_canceled_def d5_def Q15_def q15_remaining_def q15_from_def Q16_def q16_wip_def
      q16_from_def left_join_def group_by_def sql_sum_def step_minutes_def pg_round_def
      desc_key_def floor_rat_numeral)

text \<open>
  Claim C4, amended. In a store whose identifiers are keys and whose steps name existing
  operations, Q16 sums \<open>COALESCE(planned_minutes, default_minutes, 0)\<close> over the steps that
  are not DONE, of every order whatever its status, grouped by workshop name; the steps
  without a workshop form the bucket of the NULL name; and a bucket is reported, once, exactly
  when its sum is greater than zero.
\<close>

theorem Q16_per_workshop:
  assumes wf: "wf_db d"
  shows "filter (\<lambda>r. q16_workshop r = k) (Q16 d) =
     (if 0 < spec_wip_minutes d k then [q16_select (k, Some (spec_wip_minutes d k))] else [])"
proof -
  have sel: "(\<lambda>r. q16_workshop r = k) \<circ> q16_select = (\<lambda>g. fst g = k)"
    by (auto simp: fun_eq_iff)
  have "filter (\<lambda>r. q16_workshop r = k) (map q16_select (filter q16_where (q16_wip d))) =
     map q16_select (filter q16_where (filter (\<lambda>g. fst g = k) (q16_wip d)))"
    by (simp add: filter_map sel conj_commute)
  also have "\<dots> = (if 0 < spec_wip_minutes d k then [q16_select (k, Some (spec_wip_minutes d k))] else [])"
  proof (cases "workshop_pending d k = []")
    case True
    then have "spec_wip_minutes d k = 0" by (simp add: spec_wip_minutes_def)
    with True show ?thesis by (simp add: q16_wip_filter [OF wf])
  next
    case False
    then obtain rs where "rs \<in> set (route_steps d)" "step_workshop d rs = k"
      by (auto simp: workshop_pending_def filter_empty_conv)
    then have "\<exists>rs \<in> set (route_steps d). step_workshop d rs = k" by blast
    with False show ?thesis by (simp add: q16_wip_filter [OF wf])
  qed
  finally have inner: "filter (\<lambda>r. q16_workshop r = k) (map q16_select (filter q16_where (q16_wip d))) =
     (if 0 < spec_wip_minutes d k then [q16_select (k, Some (spec_wip_minutes d k))] else [])" .
  have "filter (\<lambda>r. q16_workshop r = k) (Q16 d) =
     sort_key (\<lambda>r. desc_key (q16_wip_cost_rub r))
       (filter (\<lambda>r. q16_workshop r = k) (map q16_select (filter q16_where (q16_wip d))))"
    by (simp only: Q16_def filter_sort)
  then show ?thesis by (simp only: inner) (simp)
qed

theorem Q16_per_workshop_witness:
  "wf_db d5 \<and> filter (\<lambda>r. q16_workshop r = None) (Q16 d5) =
       [\<lparr> q16_workshop = None, q16_wip_minutes = Some 30, q16_wip_hours = Some (1 / 2),
          q16_rate_rub_per_hour = 1500, q16_wip_cost_rub = Some 750 \<rparr>]"
proof -
  have h1: "wf_db d5" by (simp add: wf_db_def d5_def)
  have r: "spec_wip_minutes d5 None = 30"
    by (simp add: spec_wip_minutes_def workshop_pending_def step_workshop_def
        spec_step_minutes_def d5_def)
  have q: "pg_round (1 / 2) 2 = 1 / 2" "pg_round 750 0 = 750"
    by (simp_all add: pg_round_def floor_rat_numeral)
  from Q16_per_workshop [OF h1, of None] h1 show ?thesis
    by (simp add: r q)
qed

section \<open>Q5 and Q8 on the example store\<close>

lemma Q5_status: "r \<in> set (Q5 d) \<Longrightarrow> q5_status r = ''IN_PROGRESS'' \<or> q5_status r = ''PLANNED''"
  by (auto simp: Q5_def)

text \<open>
  Claim C1. The item of \<open>d5\<close> has the route 1 DONE, 2 IN_PROGRESS, 3 PLANNED. Q5 returns
  two rows for it, step 2 and then step 3, where the header of the query and the claim
  promise the one current step.
\<close>

theorem Q5_returns_every_open_step:
  "map (\<lambda>r. (q5_order_id r, q5_product r, q5_route_step_id r, q5_status r)) (Q5 d5) =
     [(1, ''Bracket'', 2, ''IN_PROGRESS''), (1, ''Bracket'', 3, ''PLANNED'')]"
  by (simp add: Q5_def q5_steps_def d5_def left_join_def q5_rank_def)

text \<open>
  Claim C5. The lathe of \<open>d5\<close> has no operation log. Q8 reports \<open>active_ops = 0\<close> and
  \<open>total_logs = 1\<close> for it: \<open>COUNT(*)\<close> counts the all-NULL row of the outer join.
\<close>

theorem Q8_counts_missing_log:
  "operation_logs d5 = [] \<and>
   Q8 d5 = [\<lparr> q8_id = 1, q8_equipment = ''Lathe'', q8_workshop = Some ''Turning'',
              q8_active_ops = 0, q8_total_logs = 1 \<rparr>]"
  by (simp add: Q8_def q8_from_def d5_def left_join_def group_by_def)

section \<open>The server: middleware and access to the reports\<close>

lemma with_auth_Inr: "authMiddleware e req = Inr user \<Longrightarrow> with_auth e st req h = h user"
  by (simp add: with_auth_def)

lemma with_auth_Inl:
  "authMiddleware e req = Inl r \<Longrightarrow>
   with_auth e st req h = \<lparr> out_response = r, out_store = st, out_trace = [] \<rparr>"
  by (simp add: with_auth_def)

lemma with_admin_Inr:
  "authMiddleware e req = Inr user \<Longrightarrow>
   with_admin e st req h =
     (if pl_role user \<noteq> ''ADMIN'' then respond 403 (Error AdminOnly) st [] else h user)"
  by (simp add: with_admin_def with_auth_def adminOnlyMiddleware_def respond_def)

lemma authMiddleware_code: "authMiddleware e req = Inl r \<Longrightarrow> code r = 401 \<and> (\<exists>m. reply r = Error m)"
  by (auto simp: authMiddleware_def split: option.splits list.splits if_splits)

text \<open>
  Claim C6 fails as stated: the principal of token \<open>M\<close> is a MANAGER and \<open>GET /stats\<close>
  answers 200 with the report.
\<close>

theorem stats_served_to_manager_counterexample:
  "authMiddleware env0 (req_as ''M'') = Inr manager_user \<and> pl_role manager_user = ''MANAGER''
   \<and> out_response (get_stats env0 store0 (req_as ''M'')) =
       \<lparr> code = 200, reply = Stats (stats_report store0) \<rparr>"
  by (simp add: get_stats_def with_auth_def authMiddleware_def req_as_def env0_def
      manager_user_def respond_def store0_def)

text \<open>
  Claim C6, amended. For a request that \<open>authMiddleware\<close> accepts for a principal:
  \<open>GET /stats/mv\<close> answers 403 with an error and without touching the store when the role
  is not ADMIN, and answers with the rows of the view when the role is ADMIN and the store is
  reachable; the rows are sent to ADMIN principals only. \<open>GET /stats\<close> answers with the
  report for every principal, whatever the role, when the store is reachable.
\<close>

theorem stats_access:
  assumes "authMiddleware e req = Inr user"
  shows "(pl_role user \<noteq> ''ADMIN'' \<longrightarrow> get_stats_mv e st req = respond 403 (Error AdminOnly) st [])
    \<and> (pl_role user = ''ADMIN'' \<and> st_available st \<longrightarrow>
          out_response (get_stats_mv e st req) = \<lparr> code = 200, reply = MvRows (st_mv st) \<rparr>)
    \<and> (\<forall>rows. reply (out_response (get_stats_mv e st req)) = MvRows rows \<longrightarrow>
          pl_role user = ''ADMIN'')
    \<and> (st_available st \<longrightarrow>
          out_response (get_stats e st req) = \<lparr> code = 200, reply = Stats (stats_report st) \<rparr>)"
  using assms
  by (auto simp: get_stats_mv_def get_stats_def with_admin_Inr with_auth_Inr respond_def)

theorem stats_access_witness:
  "authMiddleware env0 (req_as ''M'') = Inr manager_user
   \<and> get_stats_mv env0 store0 (req_as ''M'') = respond 403 (Error AdminOnly) store0 []
   \<and> out_response (get_stats env0 store0 (req_as ''M'')) =
       \<lparr> code = 200, reply = Stats (stats_report store0) \<rparr>
   \<and> authMiddleware env0 (req_as ''A'') = Inr admin_user
   \<and> out_response (get_stats_mv env0 store0 (req_as ''A'')) =
       \<lparr> code = 200, reply = MvRows (st_mv store0) \<rparr>"
proof -
  have m: "authMiddleware env0 (req_as ''M'') = Inr manager_user"
    by (simp add: authMiddleware_def req_as_def env0_def)
  have a: "authMiddleware env0 (req_as ''A'') = Inr admin_user"
    by (simp add: authMiddleware_def req_as_def env0_def)
  have r: "pl_role manager_user \<noteq> ''ADMIN''" "pl_role admin_user = ''ADMIN''"
    by (simp_all add: manager_user_def admin_user_def)
  have s: "st_available store0" by (simp add: store0_def)
  from stats_access [OF m, of store0] stats_access [OF a, of store0] m a r s
  show ?thesis by simp
qed

section \<open>The server: users\<close>

text \<open>
  Claim C8. When the id in the path (the number \<open>parseInt\<close> reads from it, after any of
  the language's white space) is the id of the principal
  of the request, \<open>DELETE /users/:id\<close> leaves the store as it is, makes no store access and
  answers 400 to an ADMIN and 403 to any other role: a 4xx answer whatever the role.
\<close>

theorem delete_self_rejected:
  assumes "authMiddleware e req = Inr user" and "parseInt10 (param_id req) = Finite (pl_id user)"
  shows "out_store (delete_user e st req) = st \<and> out_trace (delete_user e st req) = []
    \<and> out_response (delete_user e st req) =
        (if pl_role user = ''ADMIN'' then \<lparr> code = 400, reply = Error CannotDeleteSelf \<rparr>
         else \<lparr> code = 403, reply = Error AdminOnly \<rparr>)
    \<and> 400 \<le> code (out_response (delete_user e st req))
    \<and> code (out_response (delete_user e st req)) < 500"
  using assms
  by (simp add: delete_user_def with_admin_Inr respond_def)

text \<open>The administrator 1 asks for \<open>/users/%C2%A01\<close>: a no-break space, then 1.\<close>

theorem delete_self_rejected_witness:
  "authMiddleware env0 (req_as ''A'' \<lparr> param_id := [CHR 0xC2, CHR 0xA0, CHR ''1''] \<rparr>) =
     Inr admin_user
   \<and> parseInt10 (param_id (req_as ''A'' \<lparr> param_id := [CHR 0xC2, CHR 0xA0, CHR ''1''] \<rparr>)) =
       Finite (pl_id admin_user)
   \<and> out_store (delete_user env0 store0
         (req_as ''A'' \<lparr> param_id := [CHR 0xC2, CHR 0xA0, CHR ''1''] \<rparr>)) = store0
   \<and> out_trace (delete_user env0 store0
         (req_as ''A'' \<lparr> param_id := [CHR 0xC2, CHR 0xA0, CHR ''1''] \<rparr>)) = []
   \<and> out_response (delete_user env0 store0
         (req_as ''A'' \<lparr> param_id := [CHR 0xC2, CHR 0xA0, CHR ''1''] \<rparr>)) =
        \<lparr> code = 400, reply = Error CannotDeleteSelf \<rparr>"
proof -
  define rq where "rq = req_as ''A'' \<lparr> param_id := [CHR 0xC2, CHR 0xA0, CHR ''1''] \<rparr>"
  have a: "authMiddleware env0 rq = Inr admin_user"
    by (simp add: rq_def authMiddleware_def req_as_def env0_def)
  have p: "parseInt10 (param_id rq) = Finite (pl_id admin_user)"
    by (simp add: rq_def parseInt10_def js_white_space_def digit_value_def to_number_def
        round_double_def admin_user_def)
  have r: "pl_role admin_user = ''ADMIN''" by (simp add: admin_user_def)
  from delete_self_rejected [OF a p, of store0] a p r show ?thesis
    unfolding rq_def by simp
qed

text \<open>
  Claim C9. When \<open>POST /users\<close> answers 201, it has appended exactly one user row, the
  answer shows that row, and the role of the row is ADMIN if the \<open>role\<close> of the body is
  the string ADMIN and MANAGER for any other value, a missing one included; so the role is
  one of the two.
\<close>

theorem created_user_role:
  assumes "code (out_response (post_users e st req)) = 201"
  shows "\<exists>row. st_users (out_store (post_users e st req)) = st_users st @ [row]
      \<and> reply (out_response (post_users e st req)) = CreatedUser (user_row_view row)
      \<and> su_role row = (if field req ''role'' = JStr ''ADMIN'' then ''ADMIN'' else ''MANAGER'')
      \<and> (su_role row = ''ADMIN'' \<or> su_role row = ''MANAGER'')"
proof (cases "authMiddleware e req")
  case (Inl r)
  then have "code (out_response (post_users e st req)) = 401"
    using authMiddleware_code [OF Inl] by (simp add: post_users_def with_admin_def with_auth_def)
  with assms show ?thesis by simp
next
  case (Inr user)
  show ?thesis
  proof (cases "field req ''password''")
    case (JStr pw)
    with assms Inr show ?thesis
      by (auto simp: post_users_def with_admin_Inr respond_def Let_def split: if_splits)
  qed (use assms Inr in \<open>auto simp: post_users_def with_admin_Inr respond_def Let_def split: if_splits\<close>)
qed

theorem created_user_role_witness:
  "code (out_response (post_users env0 store0
      (req_as ''A'' \<lparr> body := [(''username'', JStr ''bob''), (''password'', JStr ''pw''),
                               (''role'', JStr ''admin'')] \<rparr>))) = 201
   \<and> map su_role (st_users (out_store (post_users env0 store0
      (req_as ''A'' \<lparr> body := [(''username'', JStr ''bob''), (''password'', JStr ''pw''),
                               (''role'', JStr ''admin'')] \<rparr>)))) = [''ADMIN'', ''MANAGER'', ''MANAGER'']"
proof -
  define req where "req = req_as ''A'' \<lparr> body := [(''username'', JStr ''bob''),
     (''password'', JStr ''pw''), (''role'', JStr ''admin'')] \<rparr>"
  have c: "code (out_response (post_users env0 store0 req)) = 201"
    by (simp add: req_def post_users_def with_admin_def with_auth_def authMiddleware_def
        adminOnlyMiddleware_def req_as_def env0_def admin_user_def field_def respond_def
        store0_def to_text_def Let_def)
  have f: "field req ''role'' \<noteq> JStr ''ADMIN''" by (simp add: req_def field_def req_as_def)
  from created_user_role [OF c] obtain row where
    "st_users (out_store (post_users env0 store0 req)) = st_users store0 @ [row]"
    "su_role row = ''MANAGER''" using f by auto
  then have "map su_role (st_users (out_store (post_users env0 store0 req))) =
      [''ADMIN'', ''MANAGER'', ''MANAGER'']"
    by (simp add: store0_def)
  with c show ?thesis unfolding req_def by simp
qed

section \<open>The server: orders\<close>

lemma authMiddleware_query [simp]:
  "authMiddleware e (req \<lparr> query_status := s \<rparr>) = authMiddleware e req"
  by (simp add: authMiddleware_def)



















end
